theory Spec2Isabelle
  imports Main
begin

section \<open>Strings\<close>

text \<open>
  A Python \<open>str\<close> is a sequence of Unicode code points, and \<open>len\<close> counts code points.
  A string is therefore a list of code points (natural numbers); \<open>str\<close> turns an ASCII
  literal into such a list.
\<close>

type_synonym codepoint = nat
type_synonym pystr = "codepoint list"

abbreviation cp :: "char \<Rightarrow> codepoint" where
  "cp ch \<equiv> of_char ch"

definition str :: "string \<Rightarrow> pystr" where
  "str s = map of_char s"

definition in_range :: "char \<Rightarrow> char \<Rightarrow> codepoint \<Rightarrow> bool" where
  "in_range lo hi c \<longleftrightarrow> cp lo \<le> c \<and> c \<le> cp hi"

text \<open>The line feed character, which the anchor \<open>$\<close> treats specially.\<close>

definition newline :: codepoint where
  "newline = 10"

text \<open>
  The anchor \<open>$\<close> of Python's \<open>re\<close> (no MULTILINE flag) holds at the end of the string
  and also just before a line feed that is the last character. The argument is the part of
  the string that is still unread.
\<close>

definition at_dollar :: "pystr \<Rightarrow> bool" where
  "at_dollar rest \<longleftrightarrow> rest = [] \<or> rest = [newline]"

text \<open>
  The class \<open>\s\<close> of a Unicode pattern and the characters removed by \<open>str.strip()\<close>: both
  are the code points for which \<open>str.isspace\<close> holds.
\<close>

definition is_space :: "codepoint \<Rightarrow> bool" where
  "is_space c \<longleftrightarrow>
     (9 \<le> c \<and> c \<le> 13) \<or> (28 \<le> c \<and> c \<le> 32) \<or> c = 133 \<or> c = 160 \<or> c = 5760 \<or>
     (8192 \<le> c \<and> c \<le> 8202) \<or> c = 8232 \<or> c = 8233 \<or> c = 8239 \<or> c = 8287 \<or> c = 12288"

text \<open>
  The class \<open>\d\<close> of a Unicode pattern: the decimal digits of every script (category Nd,
  Unicode 14), given as inclusive ranges.
\<close>

definition decimal_ranges :: "(codepoint \<times> codepoint) list" where
  "decimal_ranges =
    [(48, 57), (1632, 1641), (1776, 1785), (1984, 1993), (2406, 2415), (2534, 2543),
     (2662, 2671), (2790, 2799), (2918, 2927), (3046, 3055), (3174, 3183), (3302, 3311),
     (3430, 3439), (3558, 3567), (3664, 3673), (3792, 3801), (3872, 3881), (4160, 4169),
     (4240, 4249), (6112, 6121), (6160, 6169), (6470, 6479), (6608, 6617), (6784, 6793),
     (6800, 6809), (6992, 7001), (7088, 7097), (7232, 7241), (7248, 7257), (42528, 42537),
     (43216, 43225), (43264, 43273), (43472, 43481), (43504, 43513), (43600, 43609),
     (44016, 44025), (65296, 65305), (66720, 66729), (68912, 68921), (69734, 69743),
     (69872, 69881), (69942, 69951), (70096, 70105), (70384, 70393), (70736, 70745),
     (70864, 70873), (71248, 71257), (71360, 71369), (71472, 71481), (71904, 71913),
     (72016, 72025), (72784, 72793), (73040, 73049), (73120, 73129), (92768, 92777),
     (92864, 92873), (93008, 93017), (120782, 120831), (123200, 123209), (123632, 123641),
     (125264, 125273), (130032, 130041)]"

definition is_decimal :: "codepoint \<Rightarrow> bool" where
  "is_decimal c = list_ex (\<lambda>(lo, hi). lo \<le> c \<and> c \<le> hi) decimal_ranges"


section \<open>Validators (app/utils/validators.py)\<close>

subsection \<open>Character classes of the patterns\<close>

text \<open>\<open>[a-zA-Z]\<close>\<close>

definition is_letter :: "codepoint \<Rightarrow> bool" where
  "is_letter c \<longleftrightarrow> in_range CHR ''a'' CHR ''z'' c \<or> in_range CHR ''A'' CHR ''Z'' c"

text \<open>\<open>[a-zA-Z0-9_]\<close>\<close>

definition is_username_char :: "codepoint \<Rightarrow> bool" where
  "is_username_char c \<longleftrightarrow>
     in_range CHR ''a'' CHR ''z'' c \<or> in_range CHR ''A'' CHR ''Z'' c \<or>
     in_range CHR ''0'' CHR ''9'' c \<or> c = cp CHR ''_''"

text \<open>\<open>[a-zA-Z0-9._%+-]\<close>\<close>

definition is_email_local_char :: "codepoint \<Rightarrow> bool" where
  "is_email_local_char c \<longleftrightarrow>
     in_range CHR ''a'' CHR ''z'' c \<or> in_range CHR ''A'' CHR ''Z'' c \<or>
     in_range CHR ''0'' CHR ''9'' c \<or> c \<in> set (str ''._%+-'')"

text \<open>\<open>[a-zA-Z0-9.-]\<close>\<close>

definition is_email_domain_char :: "codepoint \<Rightarrow> bool" where
  "is_email_domain_char c \<longleftrightarrow>
     in_range CHR ''a'' CHR ''z'' c \<or> in_range CHR ''A'' CHR ''Z'' c \<or>
     in_range CHR ''0'' CHR ''9'' c \<or> c \<in> set (str ''.-'')"

text \<open>\<open>[!@#$%^&*(),.?":{}|<>]\<close>; the double quote is code point 34.\<close>

definition is_special :: "codepoint \<Rightarrow> bool" where
  "is_special c \<longleftrightarrow> c \<in> set (str ''!@#$%^&*(),.?:{}|<>'') \<or> c = 34"

subsection \<open>validate_email\<close>

text \<open>
  \<open>[a-zA-Z]{2,}$\<close> on the text after the dot: the letters are taken greedily, and giving a
  letter back never helps, because \<open>$\<close> does not hold in front of a letter.
\<close>

definition match_tld :: "pystr \<Rightarrow> bool" where
  "match_tld t \<longleftrightarrow> 2 \<le> length (takeWhile is_letter t) \<and> at_dollar (dropWhile is_letter t)"

text \<open>
  \<open>[a-zA-Z0-9.-]+\.[a-zA-Z]{2,}$\<close> on the text after the at sign. The class of the host
  part contains the dot, so the matcher may have to give characters back: every split point
  \<open>i\<close> is tried.
\<close>

definition match_host :: "pystr \<Rightarrow> bool" where
  "match_host h =
     list_ex (\<lambda>i. take i h \<noteq> [] \<and> list_all is_email_domain_char (take i h) \<and>
                   (case drop i h of [] \<Rightarrow> False
                    | d # t \<Rightarrow> d = cp CHR ''.'' \<and> match_tld t))
             [0..<length h]"

text \<open>
  \<open>re.match(r'^[a-zA-Z0-9._%+-]+@[a-zA-Z0-9.-]+\.[a-zA-Z]{2,}$', email)\<close>. The class of
  the local part does not contain the at sign, so the local part is the longest prefix in the
  class.
\<close>

definition validate_email :: "pystr \<Rightarrow> bool" where
  "validate_email email \<longleftrightarrow>
     takeWhile is_email_local_char email \<noteq> [] \<and>
     (case dropWhile is_email_local_char email of [] \<Rightarrow> False
      | a # h \<Rightarrow> a = cp CHR ''@'' \<and> match_host h)"

subsection \<open>validate_password\<close>

definition validate_password :: "pystr \<Rightarrow> bool" where
  "validate_password password =
     (if length password < 8 then False
      else let has_upper = list_ex (in_range CHR ''A'' CHR ''Z'') password;
               has_lower = list_ex (in_range CHR ''a'' CHR ''z'') password;
               has_digit = list_ex is_decimal password;
               has_special = list_ex is_special password
           in has_upper \<and> has_lower \<and> has_digit \<and> has_special)"

subsection \<open>validate_username\<close>

text \<open>
  \<open>re.match(r'^[a-zA-Z0-9_]+$', username)\<close>: one or more characters of the class, taken
  greedily, then \<open>$\<close>.
\<close>

definition username_regex_match :: "pystr \<Rightarrow> bool" where
  "username_regex_match s \<longleftrightarrow>
     takeWhile is_username_char s \<noteq> [] \<and> at_dollar (dropWhile is_username_char s)"

definition validate_username :: "pystr \<Rightarrow> bool" where
  "validate_username username =
     (if \<not> (3 \<le> length username \<and> length username \<le> 50) then False
      else username_regex_match username)"

subsection \<open>sanitize_string\<close>

text \<open>
  \<open>re.sub(r'<[^>]*>', '', s)\<close>. Scanning from the left, a \<open><\<close> starts a match when a
  \<open>>\<close> follows anywhere later (the class \<open>[^>]\<close> also takes line feeds and further \<open><\<close>);
  the match ends at the first such \<open>>\<close>, and scanning goes on behind it. A \<open><\<close> with no
  \<open>>\<close> behind it stays.
\<close>

function re_sub_tags :: "pystr \<Rightarrow> pystr" where
  "re_sub_tags [] = []"
| "re_sub_tags (c # cs) =
     (if c = cp CHR ''<'' \<and> cp CHR ''>'' \<in> set cs
      then re_sub_tags (tl (dropWhile (\<lambda>x. x \<noteq> cp CHR ''>'') cs))
      else c # re_sub_tags cs)"
  by pat_completeness auto
termination
  by (relation "measure length")
     (auto simp: less_Suc_eq_le intro: le_trans [OF diff_le_self length_dropWhile_le])

text \<open>\<open>re.sub(r'\s+', ' ', s)\<close>: every maximal run of whitespace becomes one space.\<close>

function re_sub_spaces :: "pystr \<Rightarrow> pystr" where
  "re_sub_spaces [] = []"
| "re_sub_spaces (c # cs) =
     (if is_space c then cp CHR '' '' # re_sub_spaces (dropWhile is_space cs)
      else c # re_sub_spaces cs)"
  by pat_completeness auto
termination
  by (relation "measure length")
     (auto simp: less_Suc_eq_le intro: length_dropWhile_le)

text \<open>\<open>s.strip()\<close>\<close>

definition strip :: "pystr \<Rightarrow> pystr" where
  "strip s = rev (dropWhile is_space (rev (dropWhile is_space s)))"

definition sanitize_string :: "pystr option \<Rightarrow> pystr option" where
  "sanitize_string input_string =
     (case input_string of
        None \<Rightarrow> None
      | Some s \<Rightarrow> Some (strip (re_sub_spaces (re_sub_tags s))))"

text \<open>
  The three facts that one application of \<open>sanitize_string\<close> establishes: no \<open><\<close> with a
  \<open>>\<close> somewhere behind it (that is, no substring matching \<open><[^>]*>\<close>); no two
  whitespace characters in a row; no whitespace at either end.
\<close>

fun has_tag :: "pystr \<Rightarrow> bool" where
  "has_tag [] = False"
| "has_tag (c # cs) = ((c = cp CHR ''<'' \<and> cp CHR ''>'' \<in> set cs) \<or> has_tag cs)"

fun has_space_run :: "pystr \<Rightarrow> bool" where
  "has_space_run [] = False"
| "has_space_run (c # cs) =
     ((is_space c \<and> (case cs of [] \<Rightarrow> False | d # _ \<Rightarrow> is_space d)) \<or> has_space_run cs)"

definition has_outer_space :: "pystr \<Rightarrow> bool" where
  "has_outer_space s \<longleftrightarrow> s \<noteq> [] \<and> (is_space (hd s) \<or> is_space (last s))"


section \<open>Errors and time\<close>

text \<open>
  A handler either returns a value or raises. \<open>HTTPException\<close> carries the status code and
  the detail string. \<open>RequestValidationError\<close> is the framework's answer (422) to a query
  parameter outside the bounds declared with \<open>Query\<close>; \<open>InternalServerError\<close> (500) stands
  for an exception that no handler catches, such as a violated table constraint.
\<close>

datatype api_error =
    HTTPException nat string
  | RequestValidationError
  | InternalServerError


text \<open>
  A point in time is a number of whole seconds since the epoch. Each request reads the clock
  once; that reading is passed to the handler as \<open>now\<close> and stands for \<open>datetime.utcnow()\<close>
  as well as for the store's \<open>func.now()\<close>.
\<close>

type_synonym datetime = int


section \<open>Models (app/models/user.py, app/models/task.py)\<close>

datatype TaskStatus = TODO | IN_PROGRESS | COMPLETED

datatype TaskPriority = LOW | MEDIUM | HIGH

record user =
  u_id :: int
  email :: pystr
  username :: pystr
  hashed_password :: pystr
  full_name :: "pystr option"
  is_active :: bool
  is_admin :: bool
  u_created_at :: "datetime option"
  u_updated_at :: "datetime option"

text \<open>
  The attribute \<open>title\<close> of a task object can hold \<open>None\<close> like any Python attribute; the
  column is declared \<open>nullable=False\<close>, which the store checks when the row is written.
\<close>

record task =
  t_id :: int
  title :: "pystr option"
  description :: "pystr option"
  status :: TaskStatus
  priority :: TaskPriority
  due_date :: "datetime option"
  owner_id :: int
  t_created_at :: "datetime option"
  t_updated_at :: "datetime option"
  completed_at :: "datetime option"


section \<open>The store\<close>

text \<open>
  The two tables, each a list of rows in the order in which the store returns them.
\<close>

record db =
  users :: "user list"
  tasks :: "task list"

text \<open>
  The key given to a new row: one more than the largest key of the table, 1 for an empty
  table.
\<close>

definition next_id :: "int list \<Rightarrow> int" where
  "next_id ids = fold max ids 0 + 1"

text \<open>
  The primary keys of a table are pairwise different. The store enforces this; it is the
  invariant under which the handlers are studied.
\<close>

definition db_ok :: "db \<Rightarrow> bool" where
  "db_ok d \<longleftrightarrow> distinct (map u_id (users d)) \<and> distinct (map t_id (tasks d))"

text \<open>
  \<open>db.add(row); db.commit(); db.refresh(row)\<close> for a new task: the store assigns the key and
  the column defaults (\<open>status\<close> is not set by the caller and defaults to \<open>TODO\<close>,
  \<open>created_at\<close> has the server default \<open>now()\<close>), and rejects a null title.
\<close>

definition add_task :: "task \<Rightarrow> datetime \<Rightarrow> db \<Rightarrow> (api_error + task) \<times> db" where
  "add_task new_task now d =
     (if title new_task = None then (Inl InternalServerError, d)
      else let row = new_task\<lparr>t_id := next_id (map t_id (tasks d)),
                               t_created_at := Some now\<rparr>
           in (Inr row, d\<lparr>tasks := tasks d @ [row]\<rparr>))"

text \<open>
  \<open>db.commit(); db.refresh(task)\<close> after attributes of a loaded task were assigned. The
  unit of work compares the object with the row it was loaded from: without a net change no
  UPDATE is issued; otherwise the changed columns of the row with that key are rewritten
  (a title changed to null is rejected), and \<open>updated_at\<close> (declared
  \<open>onupdate=func.now()\<close>) is set to the time of the statement.
\<close>

definition commit_task :: "task \<Rightarrow> task \<Rightarrow> datetime \<Rightarrow> db \<Rightarrow> (api_error + task) \<times> db" where
  "commit_task loaded changed now d =
     (if changed = loaded then (Inr loaded, d)
      else if title changed = None \<and> title loaded \<noteq> None then (Inl InternalServerError, d)
      else let row = changed\<lparr>t_updated_at := Some now\<rparr>
           in (Inr row, d\<lparr>tasks := map (\<lambda>r. if t_id r = t_id loaded then row else r) (tasks d)\<rparr>))"

text \<open>\<open>db.delete(task); db.commit()\<close>\<close>

definition remove_task :: "task \<Rightarrow> db \<Rightarrow> db" where
  "remove_task t d = d\<lparr>tasks := filter (\<lambda>r. t_id r \<noteq> t_id t) (tasks d)\<rparr>"

text \<open>
  The same for users. Both \<open>username\<close> and \<open>email\<close> are declared \<open>unique=True\<close>; the
  defaults of a new row are \<open>is_active = True\<close> and \<open>is_admin = False\<close>, which
  \<open>register_user\<close> never sets itself.
\<close>

definition add_user :: "user \<Rightarrow> datetime \<Rightarrow> db \<Rightarrow> (api_error + user) \<times> db" where
  "add_user new_user now d =
     (if list_ex (\<lambda>r. username r = username new_user \<or> email r = email new_user) (users d)
      then (Inl InternalServerError, d)
      else let row = new_user\<lparr>u_id := next_id (map u_id (users d)),
                               u_created_at := Some now\<rparr>
           in (Inr row, d\<lparr>users := users d @ [row]\<rparr>))"

definition commit_user :: "user \<Rightarrow> user \<Rightarrow> datetime \<Rightarrow> db \<Rightarrow> user \<times> db" where
  "commit_user loaded changed now d =
     (if changed = loaded then (loaded, d)
      else let row = changed\<lparr>u_updated_at := Some now\<rparr>
           in (row, d\<lparr>users := map (\<lambda>r. if u_id r = u_id loaded then row else r) (users d)\<rparr>))"


section \<open>Authentication service (app/services/auth_service.py)\<close>

record settings =
  SECRET_KEY :: pystr
  ALGORITHM :: string
  ACCESS_TOKEN_EXPIRE_MINUTES :: int

text \<open>The values that \<open>config/config.py\<close> gives when the environment sets nothing.\<close>

definition default_settings :: settings where
  "default_settings =
     \<lparr>SECRET_KEY = str ''your-secret-key-here'', ALGORITHM = ''HS256'',
      ACCESS_TOKEN_EXPIRE_MINUTES = 30\<rparr>"

subsection \<open>The token library\<close>

text \<open>
  The claims of a token are a dictionary. A value is a string, a number, or (before
  encoding) a point in time.
\<close>

datatype claim_value = StrClaim pystr | NumClaim int | TimeClaim datetime

type_synonym claims = "string \<rightharpoonup> claim_value"

text \<open>
  Signing is outside the program (\<open>jose.jwt\<close>) and is modelled symbolically, as in the
  analysis of security protocols: \<open>Signed alg payload key\<close> is the serialised token with
  header algorithm \<open>alg\<close>, the given payload and a signature made with \<open>key\<close>; the signature
  verifies under a key exactly when that key is \<open>key\<close>. \<open>Garbage s\<close> is any string that does
  not parse as a token.
\<close>

datatype token = Signed string claims pystr | Garbage pystr

text \<open>
  The library's errors. \<open>ExpiredSignatureError\<close> and \<open>JWTClaimsError\<close> are subclasses of
  \<open>JWTError\<close> in the library, so \<open>except JWTError\<close> catches all three.
\<close>

datatype jwt_error = JWTError | ExpiredSignatureError | JWTClaimsError

text \<open>\<open>jwt.encode\<close>: a point in time under \<open>exp\<close>, \<open>iat\<close> or \<open>nbf\<close> is written as its number of
  seconds.\<close>

definition jwt_encode :: "claims \<Rightarrow> pystr \<Rightarrow> string \<Rightarrow> token" where
  "jwt_encode cs key algorithm =
     Signed algorithm
       (\<lambda>k. if k \<in> set [''exp'', ''iat'', ''nbf'']
            then (case cs k of Some (TimeClaim t) \<Rightarrow> Some (NumClaim t) | v \<Rightarrow> v)
            else cs k)
       key"

text \<open>
  \<open>jwt.decode\<close>: the token must parse, its algorithm must be among those allowed, the
  signature must verify, and an \<open>exp\<close> claim must be a number that is not smaller than the
  clock. Of the registered claims only \<open>exp\<close> is modelled; the program issues no other.
\<close>

definition jwt_decode :: "token \<Rightarrow> pystr \<Rightarrow> string list \<Rightarrow> datetime \<Rightarrow> jwt_error + claims" where
  "jwt_decode tok key algorithms now =
     (case tok of
        Garbage s \<Rightarrow> Inl JWTError
      | Signed alg payload k \<Rightarrow>
          if alg \<notin> set algorithms then Inl JWTError
          else if k \<noteq> key then Inl JWTError
          else (case payload ''exp'' of
                  None \<Rightarrow> Inr payload
                | Some (NumClaim e) \<Rightarrow> if e < now then Inl ExpiredSignatureError else Inr payload
                | Some _ \<Rightarrow> Inl JWTClaimsError))"

subsection \<open>AuthService\<close>

text \<open>
  \<open>expires_delta\<close> is a number of seconds; a \<open>timedelta\<close> of zero is false in Python, so the
  default lifetime is used for it as well as for \<open>None\<close>.
\<close>

definition create_access_token :: "settings \<Rightarrow> claims \<Rightarrow> int option \<Rightarrow> datetime \<Rightarrow> token" where
  "create_access_token st data expires_delta now =
     (let to_encode = data;
          expire = (case expires_delta of
                      Some delta \<Rightarrow> if delta \<noteq> 0 then now + delta
                                    else now + 60 * ACCESS_TOKEN_EXPIRE_MINUTES st
                    | None \<Rightarrow> now + 60 * ACCESS_TOKEN_EXPIRE_MINUTES st);
          to_encode = to_encode(''exp'' \<mapsto> TimeClaim expire)
      in jwt_encode to_encode (SECRET_KEY st) (ALGORITHM st))"

definition decode_token :: "settings \<Rightarrow> token \<Rightarrow> datetime \<Rightarrow> claims option" where
  "decode_token st tok now =
     (case jwt_decode tok (SECRET_KEY st) [ALGORITHM st] now of
        Inr payload \<Rightarrow> Some payload
      | Inl e \<Rightarrow> None)"


section \<open>Authentication middleware (app/middleware/auth_middleware.py)\<close>

definition get_current_active_user :: "user \<Rightarrow> api_error + user" where
  "get_current_active_user current_user =
     (if \<not> is_active current_user then Inl (HTTPException 400 ''Inactive user'')
      else Inr current_user)"

definition get_current_admin_user :: "user \<Rightarrow> api_error + user" where
  "get_current_admin_user u =
     (case get_current_active_user u of
        Inl e \<Rightarrow> Inl e
      | Inr current_user \<Rightarrow>
          if \<not> is_admin current_user then Inl (HTTPException 403 ''Not enough privileges'')
          else Inr current_user)"


section \<open>Registration (app/utils/validators.py, app/routes/auth.py)\<close>

definition validate_registration_data :: "pystr \<Rightarrow> pystr \<Rightarrow> pystr \<Rightarrow> api_error + unit" where
  "validate_registration_data uname mail password =
     (if \<not> validate_username uname then
        Inl (HTTPException 400
          ''Username must be 3-50 characters and contain only letters, numbers, and underscores'')
      else if \<not> validate_email mail then
        Inl (HTTPException 400 ''Invalid email address'')
      else if \<not> validate_password password then
        Inl (HTTPException 400
          ''Password must be at least 8 characters and contain uppercase, lowercase, number, and special character'')
      else Inr ())"

record user_create =
  uc_username :: pystr
  uc_email :: pystr
  uc_password :: pystr
  uc_full_name :: "pystr option"

text \<open>
  \<open>register_user\<close>. Its argument is the request body as the framework hands it over,
  parsed as \<open>UserCreate\<close>. The password hash comes from \<open>passlib\<close>, which salts at
  random: the hashing function of the call is the parameter \<open>get_password_hash\<close>. The key
  of \<open>new_user\<close> is a placeholder until the store assigns one.
\<close>

definition register_user ::
  "(pystr \<Rightarrow> pystr) \<Rightarrow> user_create \<Rightarrow> datetime \<Rightarrow> db \<Rightarrow> (api_error + user) \<times> db" where
  "register_user get_password_hash user_data now d =
     (case validate_registration_data (uc_username user_data) (uc_email user_data)
             (uc_password user_data) of
        Inl e \<Rightarrow> (Inl e, d)
      | Inr _ \<Rightarrow>
          if find (\<lambda>u. username u = uc_username user_data) (users d) \<noteq> None then
            (Inl (HTTPException 400 ''Username already registered''), d)
          else if find (\<lambda>u. email u = uc_email user_data) (users d) \<noteq> None then
            (Inl (HTTPException 400 ''Email already registered''), d)
          else
            let hashed = get_password_hash (uc_password user_data);
                new_user = \<lparr>u_id = 0, email = uc_email user_data,
                            username = uc_username user_data, hashed_password = hashed,
                            full_name = uc_full_name user_data, is_active = True,
                            is_admin = False, u_created_at = None, u_updated_at = None\<rparr>
            in add_user new_user now d)"


section \<open>User routes (app/routes/users.py)\<close>

definition get_current_user_profile :: "user \<Rightarrow> user" where
  "get_current_user_profile current_user = current_user"

definition get_all_users :: "user \<Rightarrow> db \<Rightarrow> user list" where
  "get_all_users current_user d = users d"

definition deactivate_user :: "int \<Rightarrow> user \<Rightarrow> datetime \<Rightarrow> db \<Rightarrow> (api_error + user) \<times> db" where
  "deactivate_user user_id current_user now d =
     (if user_id = u_id current_user then
        (Inl (HTTPException 400 ''Cannot deactivate yourself''), d)
      else case find (\<lambda>u. u_id u = user_id) (users d) of
        None \<Rightarrow> (Inl (HTTPException 404 ''User not found''), d)
      | Some u \<Rightarrow>
          (case commit_user u (u\<lparr>is_active := False\<rparr>) now d of (row, d') \<Rightarrow> (Inr row, d')))"

definition activate_user :: "int \<Rightarrow> user \<Rightarrow> datetime \<Rightarrow> db \<Rightarrow> (api_error + user) \<times> db" where
  "activate_user user_id current_user now d =
     (case find (\<lambda>u. u_id u = user_id) (users d) of
        None \<Rightarrow> (Inl (HTTPException 404 ''User not found''), d)
      | Some u \<Rightarrow>
          (case commit_user u (u\<lparr>is_active := True\<rparr>) now d of (row, d') \<Rightarrow> (Inr row, d')))"


section \<open>Response models\<close>

text \<open>
  Both route modules declare a class \<open>UserResponse\<close> with the same six fields; the framework
  builds the response from the returned user by reading these attributes. The class of
  \<open>routes/auth.py\<close> declares \<open>full_name: Optional[str]\<close>. The class of \<open>routes/users.py\<close>
  declares \<open>full_name: str = None\<close>: the attribute is present on every user, so it is
  validated as a string, and a user without a full name fails the response validation
  (status 500).
\<close>

record user_response =
  r_id :: int
  r_username :: pystr
  r_email :: pystr
  r_full_name :: "pystr option"
  r_is_active :: bool
  r_is_admin :: bool

definition auth_UserResponse :: "user \<Rightarrow> api_error + user_response" where
  "auth_UserResponse u =
     Inr \<lparr>r_id = u_id u, r_username = username u, r_email = email u,
          r_full_name = full_name u, r_is_active = is_active u, r_is_admin = is_admin u\<rparr>"

definition users_UserResponse :: "user \<Rightarrow> api_error + user_response" where
  "users_UserResponse u =
     (if full_name u = None then Inl InternalServerError
      else Inr \<lparr>r_id = u_id u, r_username = username u, r_email = email u,
                r_full_name = full_name u, r_is_active = is_active u, r_is_admin = is_admin u\<rparr>)"

text \<open>A list response is built element by element and fails with the first failing element.\<close>

fun response_list :: "('a \<Rightarrow> api_error + 'b) \<Rightarrow> 'a list \<Rightarrow> api_error + 'b list" where
  "response_list f [] = Inr []"
| "response_list f (x # xs) =
     (case f x of
        Inl e \<Rightarrow> Inl e
      | Inr y \<Rightarrow> (case response_list f xs of Inl e \<Rightarrow> Inl e | Inr ys \<Rightarrow> Inr (y # ys)))"

text \<open>
  The three endpoints that answer with a user view: \<open>POST /api/auth/register\<close>,
  \<open>GET /api/users/me\<close> and \<open>GET /api/users/\<close>, each the handler followed by its response
  model.
\<close>

definition register_response ::
  "(pystr \<Rightarrow> pystr) \<Rightarrow> user_create \<Rightarrow> datetime \<Rightarrow> db \<Rightarrow> api_error + user_response" where
  "register_response get_password_hash user_data now d =
     (case fst (register_user get_password_hash user_data now d) of
        Inl e \<Rightarrow> Inl e
      | Inr u \<Rightarrow> auth_UserResponse u)"

definition me_response :: "user \<Rightarrow> api_error + user_response" where
  "me_response u =
     (case get_current_active_user u of
        Inl e \<Rightarrow> Inl e
      | Inr current_user \<Rightarrow> users_UserResponse (get_current_user_profile current_user))"

definition all_users_response :: "user \<Rightarrow> db \<Rightarrow> api_error + user_response list" where
  "all_users_response u d =
     (case get_current_admin_user u of
        Inl e \<Rightarrow> Inl e
      | Inr current_user \<Rightarrow> response_list users_UserResponse (get_all_users current_user d))"


section \<open>Task routes (app/routes/tasks.py)\<close>

record task_create =
  tc_title :: pystr
  tc_description :: "pystr option"
  tc_priority :: TaskPriority
  tc_due_date :: "datetime option"

record task_update =
  tu_title :: "pystr option"
  tu_description :: "pystr option"
  tu_status :: "TaskStatus option"
  tu_priority :: "TaskPriority option"
  tu_due_date :: "datetime option"

text \<open>
  \<open>create_task\<close>. The constructor call sets title, description, priority, due date and
  owner. The request has no status field, and the constructor sets none: the row gets the
  column default \<open>TODO\<close>. The key is a placeholder until the store assigns one; the
  remaining attributes stay \<open>None\<close>.
\<close>

definition create_task ::
  "task_create \<Rightarrow> user \<Rightarrow> datetime \<Rightarrow> db \<Rightarrow> (api_error + task) \<times> db" where
  "create_task task_data current_user now d =
     (let sanitized_title = sanitize_string (Some (tc_title task_data));
          sanitized_description = sanitize_string (tc_description task_data);
          new_task = \<lparr>t_id = 0, title = sanitized_title,
                      description = sanitized_description, status = TODO,
                      priority = tc_priority task_data, due_date = tc_due_date task_data,
                      owner_id = u_id current_user, t_created_at = None, t_updated_at = None,
                      completed_at = None\<rparr>
      in add_task new_task now d)"

text \<open>
  A query parameter declared with \<open>Query(default, ...)\<close>: the default when the parameter is
  omitted, a validation error when the value is outside the declared bounds.
\<close>

definition Query :: "int \<Rightarrow> (int \<Rightarrow> bool) \<Rightarrow> int option \<Rightarrow> api_error + int" where
  "Query dflt bounds v =
     (case v of
        None \<Rightarrow> Inr dflt
      | Some x \<Rightarrow> if bounds x then Inr x else Inl RequestValidationError)"

text \<open>
  \<open>get_tasks\<close>. Every member of the two enumerations is a non-empty string and hence
  true, so \<open>if status:\<close> and \<open>if priority:\<close> test for presence.
\<close>

definition get_tasks ::
  "TaskStatus option \<Rightarrow> TaskPriority option \<Rightarrow> int option \<Rightarrow> int option \<Rightarrow> user \<Rightarrow> db
     \<Rightarrow> api_error + task list" where
  "get_tasks st pr skip limit current_user d =
     (case Query 0 (\<lambda>v. 0 \<le> v) skip of
        Inl e \<Rightarrow> Inl e
      | Inr skip \<Rightarrow>
     (case Query 10 (\<lambda>v. 1 \<le> v \<and> v \<le> 100) limit of
        Inl e \<Rightarrow> Inl e
      | Inr limit \<Rightarrow>
          let query = filter (\<lambda>t. owner_id t = u_id current_user) (tasks d);
              query = (case st of None \<Rightarrow> query | Some s \<Rightarrow> filter (\<lambda>t. status t = s) query);
              query = (case pr of None \<Rightarrow> query | Some p \<Rightarrow> filter (\<lambda>t. priority t = p) query)
          in Inr (take (nat limit) (drop (nat skip) query))))"

definition get_task :: "int \<Rightarrow> user \<Rightarrow> db \<Rightarrow> api_error + task" where
  "get_task task_id current_user d =
     (case find (\<lambda>t. t_id t = task_id \<and> owner_id t = u_id current_user) (tasks d) of
        None \<Rightarrow> Inl (HTTPException 404 ''Task not found'')
      | Some t \<Rightarrow> Inr t)"

text \<open>The assignments of \<open>update_task\<close> to the loaded task, in the order of the source.\<close>

definition apply_update :: "task_update \<Rightarrow> datetime \<Rightarrow> task \<Rightarrow> task" where
  "apply_update task_data now t =
     (let t = (if tu_title task_data \<noteq> None
               then t\<lparr>title := sanitize_string (tu_title task_data)\<rparr> else t);
          t = (if tu_description task_data \<noteq> None
               then t\<lparr>description := sanitize_string (tu_description task_data)\<rparr> else t);
          t = (case tu_status task_data of
                 None \<Rightarrow> t
               | Some s \<Rightarrow>
                   let t = t\<lparr>status := s\<rparr>
                   in if s = COMPLETED then t\<lparr>completed_at := Some now\<rparr> else t);
          t = (case tu_priority task_data of None \<Rightarrow> t | Some p \<Rightarrow> t\<lparr>priority := p\<rparr>);
          t = (if tu_due_date task_data \<noteq> None then t\<lparr>due_date := tu_due_date task_data\<rparr> else t)
      in t)"

definition update_task ::
  "int \<Rightarrow> task_update \<Rightarrow> user \<Rightarrow> datetime \<Rightarrow> db \<Rightarrow> (api_error + task) \<times> db" where
  "update_task task_id task_data current_user now d =
     (case find (\<lambda>t. t_id t = task_id \<and> owner_id t = u_id current_user) (tasks d) of
        None \<Rightarrow> (Inl (HTTPException 404 ''Task not found''), d)
      | Some t \<Rightarrow> commit_task t (apply_update task_data now t) now d)"

definition delete_task :: "int \<Rightarrow> user \<Rightarrow> db \<Rightarrow> (api_error + unit) \<times> db" where
  "delete_task task_id current_user d =
     (case find (\<lambda>t. t_id t = task_id \<and> owner_id t = u_id current_user) (tasks d) of
        None \<Rightarrow> (Inl (HTTPException 404 ''Task not found''), d)
      | Some t \<Rightarrow> (Inr (), remove_task t d))"




section \<open>Example data\<close>

text \<open>Two users and two tasks, used to run the handlers on concrete inputs.\<close>

definition alice :: user where
  "alice = \<lparr>u_id = 1, email = str ''alice@x.com'', username = str ''alice'',
             hashed_password = str ''hash-a'', full_name = Some (str ''Alice''),
             is_active = True, is_admin = True, u_created_at = Some 100, u_updated_at = None\<rparr>"

definition bob :: user where
  "bob = \<lparr>u_id = 2, email = str ''bob@x.com'', username = str ''bob'',
           hashed_password = str ''hash-b'', full_name = None,
           is_active = True, is_admin = False, u_created_at = Some 200, u_updated_at = None\<rparr>"

definition task1 :: task where
  "task1 = \<lparr>t_id = 1, title = Some (str ''write''), description = Some (str ''text''),
             status = TODO, priority = MEDIUM, due_date = Some 900, owner_id = 1,
             t_created_at = Some 300, t_updated_at = None, completed_at = None\<rparr>"

definition task2 :: task where
  "task2 = \<lparr>t_id = 2, title = Some (str ''read''), description = None,
             status = IN_PROGRESS, priority = HIGH, due_date = None, owner_id = 2,
             t_created_at = Some 400, t_updated_at = None, completed_at = None\<rparr>"

definition db1 :: db where
  "db1 = \<lparr>users = [alice, bob], tasks = [task1, task2]\<rparr>"

definition empty_db :: db where
  "empty_db = \<lparr>users = [], tasks = []\<rparr>"

definition carol_data :: user_create where
  "carol_data = \<lparr>uc_username = str ''carol'', uc_email = str ''carol@x.com'',
                  uc_password = str ''TestPass123!'', uc_full_name = None\<rparr>"






definition no_update :: task_update where
  "no_update = \<lparr>tu_title = None, tu_description = None, tu_status = None,
                 tu_priority = None, tu_due_date = None\<rparr>"






section \<open>Properties\<close>

subsection \<open>Sanitizing\<close>

lemma set_tl_subset: "set (tl xs) \<subseteq> set xs"
  by (cases xs) auto

lemma set_re_sub_tags: "set (re_sub_tags s) \<subseteq> set s"
proof (induction s rule: re_sub_tags.induct)
  case 1
  show ?case by simp
next
  case (2 c cs)
  show ?case
  proof (cases "c = cp CHR ''<'' \<and> cp CHR ''>'' \<in> set cs")
    case True
    have "set (tl (dropWhile (\<lambda>x. x \<noteq> cp CHR ''>'') cs)) \<subseteq> set cs"
      by (rule subset_trans [OF set_tl_subset]) (auto dest: set_dropWhileD)
    with 2(1) True show ?thesis by auto
  next
    case False
    with 2(2) show ?thesis by auto
  qed
qed

lemma no_tag_re_sub_tags: "\<not> has_tag (re_sub_tags s)"
proof (induction s rule: re_sub_tags.induct)
  case 1
  show ?case by simp
next
  case (2 c cs)
  show ?case
  proof (cases "c = cp CHR ''<'' \<and> cp CHR ''>'' \<in> set cs")
    case True
    with 2(1) show ?thesis by simp
  next
    case False
    with 2(2) set_re_sub_tags [of cs] show ?thesis by auto
  qed
qed

lemma re_sub_tags_id: "\<not> has_tag s \<Longrightarrow> re_sub_tags s = s"
  by (induction s) auto

lemma has_tag_filter:
  "P (cp CHR ''<'') \<Longrightarrow> P (cp CHR ''>'') \<Longrightarrow> has_tag (filter P s) = has_tag s"
  by (induction s) auto

lemma filter_not_dropWhile: "filter (\<lambda>x. \<not> P x) (dropWhile P xs) = filter (\<lambda>x. \<not> P x) xs"
  by (induction xs) auto

lemma filter_re_sub_spaces:
  "filter (\<lambda>c. \<not> is_space c) (re_sub_spaces s) = filter (\<lambda>c. \<not> is_space c) s"
proof (induction s rule: re_sub_spaces.induct)
  case 1
  show ?case by simp
next
  case (2 c cs)
  show ?case
  proof (cases "is_space c")
    case True
    have sp: "is_space (cp CHR '' '')" by (simp add: is_space_def)
    from True 2(1) sp show ?thesis by (simp add: filter_not_dropWhile)
  next
    case False
    with 2(2) show ?thesis by simp
  qed
qed

lemma filter_strip: "filter (\<lambda>c. \<not> is_space c) (strip s) = filter (\<lambda>c. \<not> is_space c) s"
  by (simp add: strip_def filter_not_dropWhile flip: rev_filter)

lemma has_tag_nonspace: "has_tag (filter (\<lambda>c. \<not> is_space c) s) = has_tag s"
  by (rule has_tag_filter) (simp_all add: is_space_def)

lemma has_tag_re_sub_spaces: "has_tag (re_sub_spaces s) = has_tag s"
  by (metis has_tag_nonspace filter_re_sub_spaces)

lemma has_tag_strip: "has_tag (strip s) = has_tag s"
  by (metis has_tag_nonspace filter_strip)


lemma spaces_re_sub_spaces:
  "c \<in> set (re_sub_spaces s) \<Longrightarrow> is_space c \<Longrightarrow> c = cp CHR '' ''"
proof (induction s rule: re_sub_spaces.induct)
  case 1
  then show ?case by simp
next
  case (2 d ds)
  then show ?case by (cases "is_space d") auto
qed

lemma no_run_re_sub_spaces: "\<not> has_space_run (re_sub_spaces s)"
proof (induction s rule: re_sub_spaces.induct)
  case 1
  show ?case by simp
next
  case (2 c cs)
  show ?case
  proof (cases "is_space c")
    case True
    show ?thesis
    proof (cases "dropWhile is_space cs")
      case Nil
      with True show ?thesis by (simp del: dropWhile_eq_Nil_conv)
    next
      case (Cons d ds)
      then have "\<not> is_space d"
        by (metis hd_dropWhile list.distinct(1) list.sel(1))
      with True Cons 2(1) show ?thesis by simp
    qed
  next
    case False
    with 2(2) show ?thesis by simp
  qed
qed

lemma re_sub_spaces_id:
  "\<forall>c\<in>set s. is_space c \<longrightarrow> c = cp CHR '' '' \<Longrightarrow> \<not> has_space_run s \<Longrightarrow> re_sub_spaces s = s"
proof (induction s)
  case Nil
  show ?case by simp
next
  case (Cons c cs)
  then have ih: "re_sub_spaces cs = cs" by simp
  show ?case
  proof (cases "is_space c")
    case True
    with Cons.prems have "dropWhile is_space cs = cs" by (cases cs) auto
    with True Cons.prems ih show ?thesis by simp
  next
    case False
    with ih show ?thesis by simp
  qed
qed

lemma has_space_run_append:
  "has_space_run (xs @ ys) \<longleftrightarrow>
     has_space_run xs \<or> has_space_run ys \<or>
     (xs \<noteq> [] \<and> ys \<noteq> [] \<and> is_space (last xs) \<and> is_space (hd ys))"
proof (induction xs)
  case Nil
  show ?case by simp
next
  case (Cons x xs)
  then show ?case
    by (cases xs; cases ys) auto
qed

lemma strip_decomp: "s = takeWhile is_space s @ strip s @ rev (takeWhile is_space (rev (dropWhile is_space s)))"
proof -
  let ?t = "dropWhile is_space s"
  have "rev ?t = takeWhile is_space (rev ?t) @ dropWhile is_space (rev ?t)" by simp
  then have "?t = rev (dropWhile is_space (rev ?t)) @ rev (takeWhile is_space (rev ?t))"
    by (metis rev_append rev_rev_ident)
  then have "?t = strip s @ rev (takeWhile is_space (rev ?t))" by (simp add: strip_def)
  then show ?thesis by (metis takeWhile_dropWhile_id)
qed

lemma no_run_strip: "\<not> has_space_run s \<Longrightarrow> \<not> has_space_run (strip s)"
proof
  assume a: "\<not> has_space_run s" and b: "has_space_run (strip s)"
  obtain p q where "s = p @ strip s @ q" using strip_decomp by blast
  then have "has_space_run s = has_space_run (p @ strip s @ q)" by simp
  with b have "has_space_run s" by (simp only: has_space_run_append) simp
  with a show False by simp
qed

lemma set_strip: "set (strip s) \<subseteq> set s"
  by (auto simp: strip_def dest!: set_dropWhileD)

lemma no_outer_strip: "\<not> has_outer_space (strip s)"
proof (cases "strip s = []")
  case True
  then show ?thesis by (simp add: has_outer_space_def)
next
  case False
  let ?t = "dropWhile is_space s"
  let ?u = "dropWhile is_space (rev ?t)"
  from False have u: "?u \<noteq> []" by (simp add: strip_def)
  then have "\<not> is_space (hd ?u)" by (rule hd_dropWhile)
  then have l: "\<not> is_space (last (strip s))" using u by (simp add: strip_def last_rev)
  have t: "?t \<noteq> []"
  proof
    assume "?t = []"
    then have "?u = []" by (simp del: dropWhile_eq_Nil_conv)
    with u show False by simp
  qed
  then have ht: "\<not> is_space (hd ?t)" by (rule hd_dropWhile)
  have "?t = strip s @ rev (takeWhile is_space (rev ?t))"
    by (metis rev_append rev_rev_ident strip_def takeWhile_dropWhile_id)
  with False have "hd ?t = hd (strip s)" by (metis hd_append2)
  with ht l show ?thesis by (simp add: has_outer_space_def)
qed

lemma strip_id: "\<not> has_outer_space s \<Longrightarrow> strip s = s"
proof (cases s)
  case Nil
  then show ?thesis by (simp add: strip_def)
next
  case (Cons c cs)
  assume "\<not> has_outer_space s"
  with Cons have h: "\<not> is_space (hd s)" and l: "\<not> is_space (last s)" and ne: "s \<noteq> []"
    by (auto simp: has_outer_space_def)
  from h ne have d: "dropWhile is_space s = s" by (cases s) auto
  from l ne have "\<not> is_space (hd (rev s))" by (simp add: hd_rev)
  with ne have "dropWhile is_space (rev s) = rev s" by (cases "rev s") auto
  with d show ?thesis by (simp add: strip_def)
qed

lemma sanitize_facts:
  "\<not> has_tag (strip (re_sub_spaces (re_sub_tags t)))"
  "\<not> has_space_run (strip (re_sub_spaces (re_sub_tags t)))"
  "\<not> has_outer_space (strip (re_sub_spaces (re_sub_tags t)))"
  "\<forall>c\<in>set (strip (re_sub_spaces (re_sub_tags t))). is_space c \<longrightarrow> c = cp CHR '' ''"
proof -
  show "\<not> has_tag (strip (re_sub_spaces (re_sub_tags t)))"
    by (simp add: has_tag_strip has_tag_re_sub_spaces no_tag_re_sub_tags)
  show "\<not> has_space_run (strip (re_sub_spaces (re_sub_tags t)))"
    by (rule no_run_strip) (rule no_run_re_sub_spaces)
  show "\<not> has_outer_space (strip (re_sub_spaces (re_sub_tags t)))"
    by (rule no_outer_strip)
  show "\<forall>c\<in>set (strip (re_sub_spaces (re_sub_tags t))). is_space c \<longrightarrow> c = cp CHR '' ''"
  proof (intro ballI impI)
    fix c assume "c \<in> set (strip (re_sub_spaces (re_sub_tags t)))" and sp: "is_space c"
    then have "c \<in> set (re_sub_spaces (re_sub_tags t))" using set_strip by blast
    then show "c = cp CHR '' ''" using sp by (rule spaces_re_sub_spaces)
  qed
qed

lemma sanitize_twice:
  "strip (re_sub_spaces (re_sub_tags (strip (re_sub_spaces (re_sub_tags t))))) =
   strip (re_sub_spaces (re_sub_tags t))"
proof -
  let ?r = "strip (re_sub_spaces (re_sub_tags t))"
  have "re_sub_tags ?r = ?r" by (rule re_sub_tags_id) (rule sanitize_facts)
  moreover have "re_sub_spaces ?r = ?r" by (rule re_sub_spaces_id) (rule sanitize_facts)+
  moreover have "strip ?r = ?r" by (rule strip_id) (rule sanitize_facts)
  ultimately show ?thesis by (simp only:)
qed

text \<open>
  Claim C10. \<open>sanitize_string\<close> keeps \<open>None\<close>, and applying it twice gives the result of
  applying it once: one application leaves a string \<open>r\<close> with no substring matching the tag
  pattern, no two whitespace characters in a row, and no whitespace at either end.
\<close>

theorem sanitize_string_idempotent:
  "sanitize_string None = None \<and>
   sanitize_string (sanitize_string x) = sanitize_string x \<and>
   (\<exists>r. sanitize_string (Some s) = Some r \<and>
        \<not> has_tag r \<and> \<not> has_space_run r \<and> \<not> has_outer_space r)"
proof -
  have "sanitize_string (sanitize_string x) = sanitize_string x"
    by (cases x) (simp_all add: sanitize_string_def sanitize_twice)
  with sanitize_facts [of s] show ?thesis by (simp add: sanitize_string_def)
qed

theorem sanitize_string_idempotent_witness:
  "sanitize_string (sanitize_string (Some (str '' <b>a  c ''))) = Some (str ''a c'')"
proof -
  have e: "sanitize_string (Some (str '' <b>a  c '')) = Some (str ''a c'')"
    by (simp add: sanitize_string_def strip_def str_def is_space_def)
  from sanitize_string_idempotent [of "Some (str '' <b>a  c '')"]
  have "sanitize_string (sanitize_string (Some (str '' <b>a  c ''))) =
        sanitize_string (Some (str '' <b>a  c ''))"
    by (rule conjunct1 [OF conjunct2])
  with e show ?thesis by (simp only:)
qed

subsection \<open>Usernames\<close>

lemma username_regex_match_iff:
  "username_regex_match s \<longleftrightarrow>
     s \<noteq> [] \<and> list_all is_username_char s \<or>
     (\<exists>w. s = w @ [newline] \<and> w \<noteq> [] \<and> list_all is_username_char w)"
proof -
  have nl: "\<not> is_username_char newline"
    by (simp add: is_username_char_def in_range_def newline_def)
  show ?thesis
  proof
    assume m: "username_regex_match s"
    then have t: "takeWhile is_username_char s \<noteq> []"
      and d: "dropWhile is_username_char s = [] \<or> dropWhile is_username_char s = [newline]"
      by (simp_all add: username_regex_match_def at_dollar_def del: dropWhile_eq_Nil_conv)
    from d show "s \<noteq> [] \<and> list_all is_username_char s \<or>
       (\<exists>w. s = w @ [newline] \<and> w \<noteq> [] \<and> list_all is_username_char w)"
    proof
      assume "dropWhile is_username_char s = []"
      then have "list_all is_username_char s" by (simp add: list_all_iff)
      moreover from t have "s \<noteq> []" by auto
      ultimately show ?thesis by simp
    next
      assume e: "dropWhile is_username_char s = [newline]"
      have "s = takeWhile is_username_char s @ dropWhile is_username_char s" by simp
      with e have "s = takeWhile is_username_char s @ [newline]" by simp
      moreover have "list_all is_username_char (takeWhile is_username_char s)"
        by (auto simp: list_all_iff dest: set_takeWhileD)
      ultimately show ?thesis using t by blast
    qed
  next
    assume "s \<noteq> [] \<and> list_all is_username_char s \<or>
       (\<exists>w. s = w @ [newline] \<and> w \<noteq> [] \<and> list_all is_username_char w)"
    then show "username_regex_match s"
    proof
      assume a: "s \<noteq> [] \<and> list_all is_username_char s"
      then have "takeWhile is_username_char s = s" "dropWhile is_username_char s = []"
        by (simp_all add: list_all_iff)
      with a show ?thesis by (simp only: username_regex_match_def at_dollar_def) simp
    next
      assume "\<exists>w. s = w @ [newline] \<and> w \<noteq> [] \<and> list_all is_username_char w"
      then obtain w where s: "s = w @ [newline]" and w: "w \<noteq> []" "list_all is_username_char w"
        by blast
      from w nl have "takeWhile is_username_char (w @ [newline]) = w"
        "dropWhile is_username_char (w @ [newline]) = [newline]"
        by (simp_all add: list_all_iff takeWhile_append2 dropWhile_append2)
      with s w show ?thesis by (simp add: username_regex_match_def at_dollar_def)
    qed
  qed
qed

text \<open>
  Claim C7. \<open>validate_username\<close> is meant to hold exactly for the strings of 3 to 50
  characters from \<open>[A-Za-z0-9_]\<close>. The code accepts more: by \<open>username_regex_match_iff\<close>
  a line feed may follow the last character. The string \<open>abc\<close> followed by a line feed is
  accepted although the line feed is outside the character set.
\<close>

theorem validate_username_trailing_newline:
  "validate_username (str ''abc'' @ [newline]) \<and>
   \<not> list_all is_username_char (str ''abc'' @ [newline])"
  by (simp add: validate_username_def username_regex_match_def at_dollar_def str_def
        is_username_char_def in_range_def newline_def)

subsection \<open>Tasks are private to their owner\<close>

lemma find_owned_other:
  assumes "distinct (map t_id ts)" "t \<in> set ts" "owner_id t \<noteq> uid"
  shows "find (\<lambda>r. t_id r = t_id t \<and> owner_id r = uid) ts = None"
proof -
  have "r = t" if "r \<in> set ts" "t_id r = t_id t" for r
    using assms(1,2) that by (meson distinct_map inj_onD)
  with assms(3) show ?thesis by (auto simp: find_None_iff)
qed

lemma find_removed:
  "find (\<lambda>r. t_id r = t_id t \<and> P r) (filter (\<lambda>r. t_id r \<noteq> t_id t) ts) = None"
  by (auto simp: find_None_iff)

text \<open>
  Claim C1. Let task \<open>t\<close> be stored and owned by user \<open>a\<close>, and let \<open>b\<close> be another user.
  Then \<open>b\<close>'s get, update and delete on the id of \<open>t\<close> each fail with 404 "Task not
  found" and leave the store, and so \<open>t\<close>, as it was; and each answer is the very answer
  that \<open>b\<close> gets from the store in which no task with that id exists.
\<close>

theorem task_isolation:
  assumes "db_ok d" and "t \<in> set (tasks d)" and "owner_id t = u_id a" and "u_id b \<noteq> u_id a"
  shows "get_task (t_id t) b d = Inl (HTTPException 404 ''Task not found'') \<and>
         update_task (t_id t) x b now d = (Inl (HTTPException 404 ''Task not found''), d) \<and>
         delete_task (t_id t) b d = (Inl (HTTPException 404 ''Task not found''), d) \<and>
         get_task (t_id t) b (remove_task t d) = get_task (t_id t) b d \<and>
         fst (update_task (t_id t) x b now (remove_task t d)) = fst (update_task (t_id t) x b now d) \<and>
         fst (delete_task (t_id t) b (remove_task t d)) = fst (delete_task (t_id t) b d)"
proof -
  from assms have "find (\<lambda>r. t_id r = t_id t \<and> owner_id r = u_id b) (tasks d) = None"
    by (intro find_owned_other) (simp_all add: db_ok_def)
  moreover have "find (\<lambda>r. t_id r = t_id t \<and> owner_id r = u_id b) (tasks (remove_task t d)) = None"
    by (simp add: remove_task_def find_removed)
  ultimately show ?thesis
    by (simp add: get_task_def update_task_def delete_task_def)
qed

theorem task_isolation_witness:
  "get_task 1 bob db1 = Inl (HTTPException 404 ''Task not found'') \<and>
   update_task 1 no_update bob 500 db1 = (Inl (HTTPException 404 ''Task not found''), db1) \<and>
   delete_task 1 bob db1 = (Inl (HTTPException 404 ''Task not found''), db1) \<and>
   get_task 1 alice db1 = Inr task1"
proof -
  have "db_ok db1" "task1 \<in> set (tasks db1)" "owner_id task1 = u_id alice" "u_id bob \<noteq> u_id alice"
    "t_id task1 = 1"
    by (simp_all add: db_ok_def db1_def task1_def task2_def alice_def bob_def)
  with task_isolation [of db1 task1 alice bob no_update 500]
  have "get_task 1 bob db1 = Inl (HTTPException 404 ''Task not found'') \<and>
   update_task 1 no_update bob 500 db1 = (Inl (HTTPException 404 ''Task not found''), db1) \<and>
   delete_task 1 bob db1 = (Inl (HTTPException 404 ''Task not found''), db1)" by simp
  moreover have "get_task 1 alice db1 = Inr task1"
    by (simp add: get_task_def db1_def task1_def alice_def)
  ultimately show ?thesis by simp
qed


subsection \<open>Listing\<close>

text \<open>
  Claim C5. With a skip \<open>k \<ge> 0\<close> and a limit \<open>1 \<le> m \<le> 100\<close> and no status or priority
  filter, the listing returns \<open>max(0, min(m, N - k))\<close> tasks, where \<open>N\<close> is the number of
  tasks of the caller; every returned task is a stored task owned by the caller; and omitting
  both parameters is the same as skip 0 and limit 10.
\<close>

theorem get_tasks_pagination:
  assumes "0 \<le> k" and "1 \<le> m" and "m \<le> 100"
  shows "(\<exists>ts. get_tasks None None (Some k) (Some m) u d = Inr ts \<and>
           int (length ts) =
             max 0 (min m (int (length (filter (\<lambda>t. owner_id t = u_id u) (tasks d))) - k)) \<and>
           (\<forall>t\<in>set ts. t \<in> set (tasks d) \<and> owner_id t = u_id u)) \<and>
         get_tasks None None None None u d = get_tasks None None (Some 0) (Some 10) u d"
proof -
  let ?q = "filter (\<lambda>t. owner_id t = u_id u) (tasks d)"
  let ?ts = "take (nat m) (drop (nat k) ?q)"
  from assms have g: "get_tasks None None (Some k) (Some m) u d = Inr ?ts"
    by (simp add: get_tasks_def Query_def)
  from assms have "int (length ?ts) = max 0 (min m (int (length ?q) - k))"
    by (simp add: min_def max_def) linarith
  moreover have "\<forall>t\<in>set ?ts. t \<in> set (tasks d) \<and> owner_id t = u_id u"
    by (auto dest!: in_set_takeD in_set_dropD)
  moreover have "get_tasks None None None None u d = get_tasks None None (Some 0) (Some 10) u d"
    by (simp add: get_tasks_def Query_def)
  ultimately show ?thesis using g by blast
qed

theorem get_tasks_pagination_witness:
  "get_tasks None None (Some 0) (Some 5) alice db1 = Inr [task1] \<and>
   get_tasks None None (Some 1) (Some 5) alice db1 = Inr [] \<and>
   get_tasks None None None None alice db1 = Inr [task1]"
proof -
  have e: "get_tasks None None (Some 0) (Some 5) alice db1 = Inr [task1]"
    "get_tasks None None (Some 1) (Some 5) alice db1 = Inr []"
    "get_tasks None None (Some 0) (Some 10) alice db1 = Inr [task1]"
    by (simp_all add: get_tasks_def Query_def db1_def task1_def task2_def alice_def)
  from get_tasks_pagination [of 0 5 alice db1]
  have "get_tasks None None None None alice db1 = get_tasks None None (Some 0) (Some 10) alice db1"
    by simp
  with e show ?thesis by simp
qed

subsection \<open>Activating and deactivating users\<close>

lemma find_key:
  "distinct (map f xs) \<Longrightarrow> x \<in> set xs \<Longrightarrow> find (\<lambda>y. f y = f x) xs = Some x"
  by (induction xs) (auto simp: rev_image_eqI)

lemma find_map_replace:
  "f row = k \<Longrightarrow> \<exists>s\<in>set xs. f s = k \<Longrightarrow>
   find (\<lambda>y. f y = k) (map (\<lambda>s. if f s = k then row else s) xs) = Some row"
  by (induction xs) auto

lemma filter_map_replace:
  "f row = k \<Longrightarrow>
   filter (\<lambda>s. f s \<noteq> k) (map (\<lambda>s. if f s = k then row else s) xs) = filter (\<lambda>s. f s \<noteq> k) xs"
  by (induction xs) auto

lemma map_key_replace:
  "f row = k \<Longrightarrow> map f (map (\<lambda>s. if f s = k then row else s) xs) = map f xs"
  by (induction xs) auto

lemma admin_caller:
  "get_current_admin_user cu = Inr cu \<longleftrightarrow> is_active cu \<and> is_admin cu"
  by (simp add: get_current_admin_user_def get_current_active_user_def)

lemma set_active_row:
  assumes "distinct (map u_id (users d))" and "r \<in> set (users d)"
  shows "\<exists>r' d'. commit_user r (r\<lparr>is_active := v\<rparr>) now d = (r', d') \<and>
           is_active r' = v \<and> u_id r' = u_id r \<and>
           find (\<lambda>u. u_id u = u_id r) (users d') = Some r' \<and>
           filter (\<lambda>u. u_id u \<noteq> u_id r) (users d') = filter (\<lambda>u. u_id u \<noteq> u_id r) (users d)"
proof (cases "r\<lparr>is_active := v\<rparr> = r")
  case True
  then have "is_active r = v" by (metis user.select_convs(6) user.surjective user.update_convs(6))
  with True assms show ?thesis by (simp add: commit_user_def find_key)
next
  case False
  let ?row = "r\<lparr>is_active := v, u_updated_at := Some now\<rparr>"
  have "find (\<lambda>u. u_id u = u_id r) (map (\<lambda>s. if u_id s = u_id r then ?row else s) (users d)) = Some ?row"
    using assms(2) by (intro find_map_replace) auto
  moreover have "filter (\<lambda>u. u_id u \<noteq> u_id r) (map (\<lambda>s. if u_id s = u_id r then ?row else s) (users d))
     = filter (\<lambda>u. u_id u \<noteq> u_id r) (users d)"
    by (intro filter_map_replace) simp
  ultimately show ?thesis using False by (simp add: commit_user_def Let_def)
qed

text \<open>
  Claim C8. For an admin caller who is a stored user: deactivating the caller's own id fails
  with 400 and changes nothing, so the caller stays active; for an id that no user has,
  deactivating and activating fail with 404 and change nothing; deactivating any other stored
  user returns that user with \<open>is_active\<close> false, stored under the same id, every other row
  as before; activating any stored user, the caller included, does the same with
  \<open>is_active\<close> true.
\<close>

theorem admin_set_active:
  assumes "db_ok d" and "get_current_admin_user cu = Inr cu" and "cu \<in> set (users d)"
  shows "deactivate_user (u_id cu) cu now d =
           (Inl (HTTPException 400 ''Cannot deactivate yourself''), d) \<and> is_active cu \<and>
         ((\<forall>r\<in>set (users d). u_id r \<noteq> uid) \<longrightarrow>
            deactivate_user uid cu now d = (Inl (HTTPException 404 ''User not found''), d) \<and>
            activate_user uid cu now d = (Inl (HTTPException 404 ''User not found''), d)) \<and>
         (\<forall>r\<in>set (users d). u_id r \<noteq> u_id cu \<longrightarrow>
            (\<exists>r' d'. deactivate_user (u_id r) cu now d = (Inr r', d') \<and>
               \<not> is_active r' \<and> u_id r' = u_id r \<and>
               find (\<lambda>u. u_id u = u_id r) (users d') = Some r' \<and>
               filter (\<lambda>u. u_id u \<noteq> u_id r) (users d') =
                 filter (\<lambda>u. u_id u \<noteq> u_id r) (users d))) \<and>
         (\<forall>r\<in>set (users d).
            (\<exists>r' d'. activate_user (u_id r) cu now d = (Inr r', d') \<and>
               is_active r' \<and> u_id r' = u_id r \<and>
               find (\<lambda>u. u_id u = u_id r) (users d') = Some r' \<and>
               filter (\<lambda>u. u_id u \<noteq> u_id r) (users d') =
                 filter (\<lambda>u. u_id u \<noteq> u_id r) (users d)))"
proof -
  from assms(1) have dist: "distinct (map u_id (users d))" by (simp add: db_ok_def)
  have self: "deactivate_user (u_id cu) cu now d =
           (Inl (HTTPException 400 ''Cannot deactivate yourself''), d)"
    by (simp add: deactivate_user_def)
  from assms(2) have act: "is_active cu" by (simp add: admin_caller)
  have absent: "deactivate_user uid cu now d = (Inl (HTTPException 404 ''User not found''), d) \<and>
            activate_user uid cu now d = (Inl (HTTPException 404 ''User not found''), d)"
    if a: "\<forall>r\<in>set (users d). u_id r \<noteq> uid"
  proof -
    from a have "find (\<lambda>u. u_id u = uid) (users d) = None" by (auto simp: find_None_iff)
    moreover from a assms(3) have "uid \<noteq> u_id cu" by auto
    ultimately show ?thesis by (simp add: deactivate_user_def activate_user_def)
  qed
  have deact: "\<exists>r' d'. deactivate_user (u_id r) cu now d = (Inr r', d') \<and>
               \<not> is_active r' \<and> u_id r' = u_id r \<and>
               find (\<lambda>u. u_id u = u_id r) (users d') = Some r' \<and>
               filter (\<lambda>u. u_id u \<noteq> u_id r) (users d') =
                 filter (\<lambda>u. u_id u \<noteq> u_id r) (users d)"
    if r: "r \<in> set (users d)" "u_id r \<noteq> u_id cu" for r
  proof -
    from dist r(1) have f: "find (\<lambda>u. u_id u = u_id r) (users d) = Some r" by (rule find_key)
    from set_active_row [OF dist r(1), of False now] obtain r' d' where
      "commit_user r (r\<lparr>is_active := False\<rparr>) now d = (r', d')" "is_active r' = False"
      "u_id r' = u_id r" "find (\<lambda>u. u_id u = u_id r) (users d') = Some r'"
      "filter (\<lambda>u. u_id u \<noteq> u_id r) (users d') = filter (\<lambda>u. u_id u \<noteq> u_id r) (users d)"
      by blast
    with f r(2) show ?thesis by (simp add: deactivate_user_def)
  qed
  have act_any: "\<exists>r' d'. activate_user (u_id r) cu now d = (Inr r', d') \<and>
               is_active r' \<and> u_id r' = u_id r \<and>
               find (\<lambda>u. u_id u = u_id r) (users d') = Some r' \<and>
               filter (\<lambda>u. u_id u \<noteq> u_id r) (users d') =
                 filter (\<lambda>u. u_id u \<noteq> u_id r) (users d)"
    if r: "r \<in> set (users d)" for r
  proof -
    from dist r have f: "find (\<lambda>u. u_id u = u_id r) (users d) = Some r" by (rule find_key)
    from set_active_row [OF dist r, of True now] obtain r' d' where
      "commit_user r (r\<lparr>is_active := True\<rparr>) now d = (r', d')" "is_active r' = True"
      "u_id r' = u_id r" "find (\<lambda>u. u_id u = u_id r) (users d') = Some r'"
      "filter (\<lambda>u. u_id u \<noteq> u_id r) (users d') = filter (\<lambda>u. u_id u \<noteq> u_id r) (users d)"
      by blast
    with f show ?thesis by (simp add: activate_user_def)
  qed
  from self act absent deact act_any show ?thesis by blast
qed


theorem admin_set_active_witness:
  "deactivate_user 1 alice 500 db1 = (Inl (HTTPException 400 ''Cannot deactivate yourself''), db1) \<and>
   deactivate_user 7 alice 500 db1 = (Inl (HTTPException 404 ''User not found''), db1) \<and>
   activate_user 7 alice 500 db1 = (Inl (HTTPException 404 ''User not found''), db1) \<and>
   fst (deactivate_user 2 alice 500 db1) = Inr (bob\<lparr>is_active := False, u_updated_at := Some 500\<rparr>) \<and>
   (\<exists>r' d'. deactivate_user 2 alice 500 db1 = (Inr r', d') \<and> \<not> is_active r' \<and>
       find (\<lambda>u. u_id u = 2) (users d') = Some r') \<and>
   (\<exists>r' d'. activate_user 1 alice 500 db1 = (Inr r', d') \<and> is_active r' \<and>
       find (\<lambda>u. u_id u = 1) (users d') = Some r') \<and>
   fst (activate_user 1 alice 500 db1) = Inr alice"
proof -
  have h: "db_ok db1" "get_current_admin_user alice = Inr alice" "alice \<in> set (users db1)"
    by (simp_all add: db_ok_def db1_def alice_def bob_def task1_def task2_def
          get_current_admin_user_def get_current_active_user_def)
  have a: "\<forall>r\<in>set (users db1). u_id r \<noteq> 7" "u_id alice = 1" "u_id bob = 2"
    "bob \<in> set (users db1)" "u_id bob \<noteq> u_id alice"
    by (simp_all add: db1_def alice_def bob_def)
  note inst = admin_set_active [OF h, of 500 7]
  from inst a(1,2)
  have one: "deactivate_user 1 alice 500 db1 = (Inl (HTTPException 400 ''Cannot deactivate yourself''), db1) \<and>
   deactivate_user 7 alice 500 db1 = (Inl (HTTPException 404 ''User not found''), db1) \<and>
   activate_user 7 alice 500 db1 = (Inl (HTTPException 404 ''User not found''), db1)"
    by simp
  from inst have "\<forall>r\<in>set (users db1). u_id r \<noteq> u_id alice \<longrightarrow>
            (\<exists>r' d'. deactivate_user (u_id r) alice 500 db1 = (Inr r', d') \<and>
               \<not> is_active r' \<and> u_id r' = u_id r \<and>
               find (\<lambda>u. u_id u = u_id r) (users d') = Some r' \<and>
               filter (\<lambda>u. u_id u \<noteq> u_id r) (users d') =
                 filter (\<lambda>u. u_id u \<noteq> u_id r) (users db1))"
    by (elim conjE)
  from bspec [OF this a(4)] a(3,5)
  have two: "\<exists>r' d'. deactivate_user 2 alice 500 db1 = (Inr r', d') \<and> \<not> is_active r' \<and>
       find (\<lambda>u. u_id u = 2) (users d') = Some r'"
    by auto
  from inst have "\<forall>r\<in>set (users db1).
            (\<exists>r' d'. activate_user (u_id r) alice 500 db1 = (Inr r', d') \<and>
               is_active r' \<and> u_id r' = u_id r \<and>
               find (\<lambda>u. u_id u = u_id r) (users d') = Some r' \<and>
               filter (\<lambda>u. u_id u \<noteq> u_id r) (users d') =
                 filter (\<lambda>u. u_id u \<noteq> u_id r) (users db1))"
    by (elim conjE)
  from bspec [OF this h(3)] a(2)
  have three: "\<exists>r' d'. activate_user 1 alice 500 db1 = (Inr r', d') \<and> is_active r' \<and>
       find (\<lambda>u. u_id u = 1) (users d') = Some r'"
    by auto
  have four: "fst (deactivate_user 2 alice 500 db1) =
      Inr (bob\<lparr>is_active := False, u_updated_at := Some 500\<rparr>)"
    by (simp add: deactivate_user_def commit_user_def Let_def db1_def alice_def bob_def)
  have five: "fst (activate_user 1 alice 500 db1) = Inr alice"
    by (simp add: activate_user_def commit_user_def Let_def db1_def alice_def bob_def)
  from one two three four five show ?thesis by (intro conjI) (elim conjE, assumption)+
qed

subsection \<open>User views\<close>

lemma UserResponse_hash:
  "auth_UserResponse (u\<lparr>hashed_password := h\<rparr>) = auth_UserResponse u"
  "users_UserResponse (u\<lparr>hashed_password := h\<rparr>) = users_UserResponse u"
  by (simp_all add: auth_UserResponse_def users_UserResponse_def)

lemma response_list_hash:
  "response_list users_UserResponse (map (\<lambda>r. r\<lparr>hashed_password := g r\<rparr>) us) =
   response_list users_UserResponse us"
  by (induction us) (simp_all add: UserResponse_hash split: sum.splits)

lemma register_response_hash:
  "register_response h1 x now d = register_response h2 x now d"
  by (simp add: register_response_def register_user_def add_user_def auth_UserResponse_def
        Let_def split: sum.splits)

text \<open>
  Claim C2. The user view has no field for the password hash, and what the three endpoints
  answer does not depend on stored hashes: the two response models give the same result for
  a user whatever the hash; registration answers the same whatever the hashing function
  returns; \<open>GET /users/me\<close> answers the same whatever the caller's hash; and the admin
  listing answers the same whatever the hashes of the caller and of the stored users.
\<close>

theorem user_view_hides_hash:
  "auth_UserResponse (u\<lparr>hashed_password := ha\<rparr>) = auth_UserResponse (u\<lparr>hashed_password := hb\<rparr>) \<and>
   users_UserResponse (u\<lparr>hashed_password := ha\<rparr>) = users_UserResponse (u\<lparr>hashed_password := hb\<rparr>) \<and>
   register_response hf x now d = register_response hg x now d \<and>
   me_response (u\<lparr>hashed_password := ha\<rparr>) = me_response (u\<lparr>hashed_password := hb\<rparr>) \<and>
   all_users_response (u\<lparr>hashed_password := ha\<rparr>)
       (d\<lparr>users := map (\<lambda>r. r\<lparr>hashed_password := ga r\<rparr>) (users d)\<rparr>) =
     all_users_response (u\<lparr>hashed_password := hb\<rparr>)
       (d\<lparr>users := map (\<lambda>r. r\<lparr>hashed_password := gb r\<rparr>) (users d)\<rparr>)"
proof -
  have "me_response (u\<lparr>hashed_password := h\<rparr>) = me_response u" for h
    by (simp add: me_response_def get_current_active_user_def get_current_user_profile_def
          UserResponse_hash)
  moreover have "all_users_response (u\<lparr>hashed_password := h\<rparr>)
       (d\<lparr>users := map (\<lambda>r. r\<lparr>hashed_password := g r\<rparr>) (users d)\<rparr>) = all_users_response u d" for h g
    by (simp add: all_users_response_def get_current_admin_user_def get_current_active_user_def
          get_all_users_def response_list_hash)
  ultimately show ?thesis
    by (simp add: UserResponse_hash register_response_hash [of hf x now d hg])
qed

theorem user_view_hides_hash_witness:
  "me_response (alice\<lparr>hashed_password := str ''one''\<rparr>) =
     Inr \<lparr>r_id = 1, r_username = str ''alice'', r_email = str ''alice@x.com'',
          r_full_name = Some (str ''Alice''), r_is_active = True, r_is_admin = True\<rparr> \<and>
   me_response (alice\<lparr>hashed_password := str ''two''\<rparr>) =
     Inr \<lparr>r_id = 1, r_username = str ''alice'', r_email = str ''alice@x.com'',
          r_full_name = Some (str ''Alice''), r_is_active = True, r_is_admin = True\<rparr> \<and>
   register_response (\<lambda>p. str ''one'') carol_data 500 empty_db =
     Inr \<lparr>r_id = 1, r_username = str ''carol'', r_email = str ''carol@x.com'',
          r_full_name = None, r_is_active = True, r_is_admin = False\<rparr> \<and>
   register_response (\<lambda>p. str ''two'') carol_data 500 empty_db =
     Inr \<lparr>r_id = 1, r_username = str ''carol'', r_email = str ''carol@x.com'',
          r_full_name = None, r_is_active = True, r_is_admin = False\<rparr>"
proof -
  have m: "me_response (alice\<lparr>hashed_password := str ''one''\<rparr>) =
     Inr \<lparr>r_id = 1, r_username = str ''alice'', r_email = str ''alice@x.com'',
          r_full_name = Some (str ''Alice''), r_is_active = True, r_is_admin = True\<rparr>"
    by (simp add: me_response_def get_current_active_user_def get_current_user_profile_def
          users_UserResponse_def alice_def)
  have v: "validate_registration_data (str ''carol'') (str ''carol@x.com'') (str ''TestPass123!'') = Inr ()"
    by (simp add: validate_registration_data_def validate_username_def username_regex_match_def
          validate_email_def match_host_def match_tld_def validate_password_def at_dollar_def
          is_username_char_def is_email_local_char_def is_email_domain_char_def is_letter_def
          is_special_def is_decimal_def decimal_ranges_def in_range_def str_def)
  have r: "register_response (\<lambda>p. str ''one'') carol_data 500 empty_db =
     Inr \<lparr>r_id = 1, r_username = str ''carol'', r_email = str ''carol@x.com'',
          r_full_name = None, r_is_active = True, r_is_admin = False\<rparr>"
    by (simp add: register_response_def register_user_def v add_user_def next_id_def
          auth_UserResponse_def carol_data_def empty_db_def Let_def)
  from user_view_hides_hash [where u = alice and ha = "str ''one''" and hb = "str ''two''"
      and hf = "\<lambda>p. str ''one''" and hg = "\<lambda>p. str ''two''" and x = carol_data
      and now = 500 and d = empty_db] m r
  show ?thesis by simp
qed

subsection \<open>Tokens\<close>

lemma decode_created:
  "decode_token st (create_access_token st (Map.empty(''sub'' \<mapsto> StrClaim uid)) ed t0) t =
     (let e = (case ed of Some delta \<Rightarrow> if delta \<noteq> 0 then t0 + delta
                                      else t0 + 60 * ACCESS_TOKEN_EXPIRE_MINUTES st
                | None \<Rightarrow> t0 + 60 * ACCESS_TOKEN_EXPIRE_MINUTES st)
      in if e < t then None
         else Some [''sub'' \<mapsto> StrClaim uid, ''exp'' \<mapsto> NumClaim e])"
  by (auto simp: decode_token_def create_access_token_def jwt_encode_def jwt_decode_def Let_def
        fun_eq_iff split: option.splits)

text \<open>
  Claim C3. A token issued at time \<open>t0\<close> for subject \<open>uid\<close> with the settings \<open>st\<close>
  decodes, at every time before its expiry, to claims whose subject is \<open>uid\<close>, and to
  \<open>None\<close> at every time after its expiry; the expiry is \<open>t0\<close> plus the configured
  lifetime, or \<open>t0 + delta\<close> for a lifetime \<open>delta\<close> given by the caller. A string that is
  not a token and a token signed with another key decode to the same \<open>None\<close>.
\<close>

theorem token_validity:
  "(t < t0 + 60 * ACCESS_TOKEN_EXPIRE_MINUTES st \<longrightarrow>
      (\<exists>p. decode_token st
             (create_access_token st (Map.empty(''sub'' \<mapsto> StrClaim uid)) None t0) t = Some p \<and>
           p ''sub'' = Some (StrClaim uid))) \<and>
   (t0 + 60 * ACCESS_TOKEN_EXPIRE_MINUTES st < t \<longrightarrow>
      decode_token st
        (create_access_token st (Map.empty(''sub'' \<mapsto> StrClaim uid)) None t0) t = None) \<and>
   (delta \<noteq> 0 \<and> t < t0 + delta \<longrightarrow>
      (\<exists>p. decode_token st
             (create_access_token st (Map.empty(''sub'' \<mapsto> StrClaim uid)) (Some delta) t0) t = Some p \<and>
           p ''sub'' = Some (StrClaim uid))) \<and>
   (delta \<noteq> 0 \<and> t0 + delta < t \<longrightarrow>
      decode_token st
        (create_access_token st (Map.empty(''sub'' \<mapsto> StrClaim uid)) (Some delta) t0) t = None) \<and>
   decode_token st (Garbage g) t = None \<and>
   (k \<noteq> SECRET_KEY st \<longrightarrow> decode_token st (Signed alg p k) t = None)"
proof -
  have "decode_token st (Garbage g) t = None"
    by (simp add: decode_token_def jwt_decode_def)
  moreover have "k \<noteq> SECRET_KEY st \<longrightarrow> decode_token st (Signed alg p k) t = None"
    by (simp add: decode_token_def jwt_decode_def)
  ultimately show ?thesis
    by (simp add: decode_created)
qed

theorem token_validity_witness:
  "map_option (\<lambda>p. p ''sub'')
     (decode_token default_settings
        (create_access_token default_settings (Map.empty(''sub'' \<mapsto> StrClaim (str ''1''))) None 1000)
        2000) = Some (Some (StrClaim (str ''1''))) \<and>
   decode_token default_settings
     (create_access_token default_settings (Map.empty(''sub'' \<mapsto> StrClaim (str ''1''))) None 1000)
     2801 = None \<and>
   map_option (\<lambda>p. p ''sub'')
     (decode_token default_settings
        (create_access_token default_settings (Map.empty(''sub'' \<mapsto> StrClaim (str ''1''))) (Some 60) 1000)
        1059) = Some (Some (StrClaim (str ''1''))) \<and>
   decode_token default_settings
     (create_access_token default_settings (Map.empty(''sub'' \<mapsto> StrClaim (str ''1''))) (Some 60) 1000)
     1061 = None \<and>
   decode_token default_settings
     (Signed ''HS256'' [''sub'' \<mapsto> StrClaim (str ''1''), ''exp'' \<mapsto> NumClaim 2800] (str ''guess''))
     2000 = None"
proof -
  have a: "(2000::int) < 1000 + 60 * ACCESS_TOKEN_EXPIRE_MINUTES default_settings"
    "(1000::int) + 60 * ACCESS_TOKEN_EXPIRE_MINUTES default_settings < 2801"
    "str ''guess'' \<noteq> SECRET_KEY default_settings"
    "(60::int) \<noteq> 0 \<and> (1059::int) < 1000 + 60" "(60::int) \<noteq> 0 \<and> (1000::int) + 60 < 1061"
    by (simp_all add: default_settings_def str_def)
  from a(1) token_validity [of 2000 1000 default_settings "str ''1''"]
  obtain p where "decode_token default_settings
        (create_access_token default_settings (Map.empty(''sub'' \<mapsto> StrClaim (str ''1''))) None 1000)
        2000 = Some p" "p ''sub'' = Some (StrClaim (str ''1''))"
    by blast
  then have "map_option (\<lambda>p. p ''sub'')
     (decode_token default_settings
        (create_access_token default_settings (Map.empty(''sub'' \<mapsto> StrClaim (str ''1''))) None 1000)
        2000) = Some (Some (StrClaim (str ''1'')))" by simp
  moreover from a(2) token_validity [of 2801 1000 default_settings "str ''1''"]
  have "decode_token default_settings
     (create_access_token default_settings (Map.empty(''sub'' \<mapsto> StrClaim (str ''1''))) None 1000)
     2801 = None" by blast
  moreover from a(4) token_validity [of 1059 1000 default_settings "str ''1''" 60]
  obtain q where "decode_token default_settings
        (create_access_token default_settings (Map.empty(''sub'' \<mapsto> StrClaim (str ''1''))) (Some 60) 1000)
        1059 = Some q" "q ''sub'' = Some (StrClaim (str ''1''))"
    by blast
  then have "map_option (\<lambda>p. p ''sub'')
     (decode_token default_settings
        (create_access_token default_settings (Map.empty(''sub'' \<mapsto> StrClaim (str ''1''))) (Some 60) 1000)
        1059) = Some (Some (StrClaim (str ''1'')))" by simp
  moreover from a(5) token_validity [of 1061 1000 default_settings "str ''1''" 60]
  have "decode_token default_settings
     (create_access_token default_settings (Map.empty(''sub'' \<mapsto> StrClaim (str ''1''))) (Some 60) 1000)
     1061 = None" by blast
  moreover from a(3) token_validity [where k = "str ''guess''" and st = default_settings]
  have "decode_token default_settings
     (Signed ''HS256'' [''sub'' \<mapsto> StrClaim (str ''1''), ''exp'' \<mapsto> NumClaim 2800] (str ''guess''))
     2000 = None" by blast
  ultimately show ?thesis by (intro conjI)
qed

subsection \<open>Registration\<close>







subsection \<open>Updating tasks\<close>


lemma apply_update_fields:
  "t_id (apply_update x now t) = t_id t"
  "owner_id (apply_update x now t) = owner_id t"
  "t_created_at (apply_update x now t) = t_created_at t"
  "t_updated_at (apply_update x now t) = t_updated_at t"
  "title (apply_update x now t) =
     (if tu_title x = None then title t else sanitize_string (tu_title x))"
  "description (apply_update x now t) =
     (if tu_description x = None then description t else sanitize_string (tu_description x))"
  "status (apply_update x now t) = (case tu_status x of None \<Rightarrow> status t | Some s \<Rightarrow> s)"
  "priority (apply_update x now t) = (case tu_priority x of None \<Rightarrow> priority t | Some p \<Rightarrow> p)"
  "due_date (apply_update x now t) = (if tu_due_date x = None then due_date t else tu_due_date x)"
  "completed_at (apply_update x now t) =
     (if tu_status x = Some COMPLETED then Some now else completed_at t)"
  by (auto simp: apply_update_def Let_def split: option.splits)







subsection \<open>The completion time\<close>



subsection \<open>What an update leaves alone\<close>




subsection \<open>The key invariant\<close>

text \<open>
  The invariant \<open>db_ok\<close>, under which the handlers were studied above, holds in the empty
  store and is kept by every handler that writes.
\<close>

lemma fold_max_bounds:
  "(a::int) \<le> fold max xs a \<and> (\<forall>x\<in>set xs. x \<le> fold max xs a)"
proof (induction xs arbitrary: a)
  case Nil
  show ?case by simp
next
  case (Cons y ys)
  from Cons [of "max y a"] show ?case by auto
qed

lemma next_id_fresh: "next_id ids \<notin> set ids"
  using fold_max_bounds [of 0 ids] by (auto simp: next_id_def)

lemma db_ok_empty: "db_ok empty_db"
  by (simp add: db_ok_def empty_db_def)

lemma db_ok_create_task: "db_ok d \<Longrightarrow> db_ok (snd (create_task c u now d))"
  using next_id_fresh [of "map t_id (tasks d)"]
  by (simp add: db_ok_def create_task_def add_task_def Let_def sanitize_string_def)

lemma distinct_replace:
  "f row = k \<Longrightarrow> distinct (map f xs) \<Longrightarrow>
   distinct (map f (map (\<lambda>s. if f s = k then row else s) xs))"
  by (simp only: map_key_replace)

lemma db_ok_update_task: "db_ok d \<Longrightarrow> db_ok (snd (update_task tid x u now d))"
proof (cases "find (\<lambda>t. t_id t = tid \<and> owner_id t = u_id u) (tasks d)")
  case None
  then show "db_ok d \<Longrightarrow> ?thesis" by (simp add: update_task_def)
next
  case (Some t)
  assume ok: "db_ok d"
  then have "distinct (map t_id (map (\<lambda>r. if t_id r = t_id t
        then (apply_update x now t)\<lparr>t_updated_at := Some now\<rparr> else r) (tasks d)))"
    by (intro distinct_replace) (simp_all add: apply_update_fields db_ok_def)
  with Some ok show ?thesis
    by (simp add: update_task_def commit_task_def db_ok_def Let_def del: map_map)
qed

lemma db_ok_delete_task: "db_ok d \<Longrightarrow> db_ok (snd (delete_task tid u d))"
  by (simp add: db_ok_def delete_task_def remove_task_def distinct_map_filter split: option.splits)

lemma db_ok_register_user: "db_ok d \<Longrightarrow> db_ok (snd (register_user h x now d))"
  using next_id_fresh [of "map u_id (users d)"]
  by (simp add: db_ok_def register_user_def add_user_def Let_def split: sum.splits)

lemma db_ok_commit_user:
  assumes "db_ok d" and "u_id r' = u_id r"
  shows "db_ok (snd (commit_user r r' now d))"
proof -
  from assms have "distinct (map u_id (map (\<lambda>s. if u_id s = u_id r
        then r'\<lparr>u_updated_at := Some now\<rparr> else s) (users d)))"
    by (intro distinct_replace) (simp_all add: db_ok_def)
  with assms show ?thesis
    by (simp add: commit_user_def db_ok_def Let_def del: map_map)
qed

lemma db_ok_set_active:
  assumes "db_ok d"
  shows "db_ok (snd (deactivate_user uid cu now d))"
    and "db_ok (snd (activate_user uid cu now d))"
proof -
  have c: "db_ok (snd (commit_user r (r\<lparr>is_active := v\<rparr>) now d))" for r v
    using assms by (rule db_ok_commit_user) simp
  show "db_ok (snd (deactivate_user uid cu now d))"
    using assms c [of _ False]
    by (simp add: deactivate_user_def split_beta split: option.splits)
  show "db_ok (snd (activate_user uid cu now d))"
    using assms c [of _ True]
    by (simp add: activate_user_def split_beta split: option.splits)
qed

end
